theory Spec2Isabelle
  imports Main "HOL-Library.Word" "HOL-Library.AList"
begin

section \<open>Data model of archive.go\<close>

text \<open>
  Go's \<open>int64\<close> (and \<open>syncInt\<close>, an \<open>int64\<close> updated with atomic add) is a 64-bit
  word: \<open>+\<close> wraps around as the machine addition does.
\<close>

type_synonym int64 = "64 word"

text \<open>
  A Go \<open>error\<close> value. The only thing the program asks of an error is whether
  \<open>os.IsExist\<close> recognises it, so an error carries that answer and its message.
  A nil error is \<open>None\<close> of \<open>error option\<close>.
\<close>

datatype error = Err (isExist: bool) (msg: string)

definition os_IsExist :: "error option \<Rightarrow> bool" where
  "os_IsExist err = (case err of None \<Rightarrow> False | Some e \<Rightarrow> isExist e)"

text \<open>What the program reads from an \<open>os.FileInfo\<close>: \<open>IsDir()\<close>, \<open>Size()\<close> and
  \<open>ModTime().Unix()\<close>.\<close>

record FileInfo =
  fi_IsDir :: bool
  fi_Size :: int64
  fi_ModTime :: int64

text \<open>\<open>type inputItem struct { fullPath string; relPath string; os.FileInfo }\<close>\<close>

record inputItem =
  fullPath :: string
  relPath :: string
  info :: FileInfo

text \<open>The hash cache's record (\<open>EntryCache\<close>), with the four fields \<open>updateFile\<close> writes.\<close>

record EntryCache =
  Sha1 :: string
  Size :: int64
  Timestamp :: int64
  LastTested :: int64

section \<open>updateFile\<close>

text \<open>
  \<open>updateFile(cache *EntryCache, item inputItem) (bool, error)\<close>. The record is
  mutated through the pointer, so the model returns it with the two results. The clock
  (\<open>time.Now().Unix()\<close>) is the parameter \<open>now\<close>; \<open>sha1FilePath\<close>, which opens and reads
  the file, is declared outside the sources at hand and is a parameter: it gives the
  digest or the error of reading the file.
\<close>

definition updateFile ::
  "(string \<Rightarrow> error + string) \<Rightarrow> int64 \<Rightarrow> EntryCache \<Rightarrow> inputItem
     \<Rightarrow> EntryCache \<times> bool \<times> error option" where
  "updateFile sha1FilePath now cache item =
     (let size = fi_Size (info item);
          timestamp = fi_ModTime (info item)
      in if Size cache = size \<and> Timestamp cache = timestamp
         then (cache\<lparr>LastTested := now\<rparr>, False, None)
         else (case sha1FilePath (fullPath item) of
                 Inl err \<Rightarrow> (cache, False, Some err)
               | Inr digest \<Rightarrow>
                   (cache\<lparr>Sha1 := digest, Size := size, Timestamp := timestamp,
                           LastTested := now\<rparr>, True, None)))"

section \<open>Statistics and pipeline items\<close>

text \<open>
  \<open>type Stats struct\<close>: the eleven counters. The logger field is left out: what is
  logged is not part of any result.
\<close>

record Stats =
  errors :: int64
  found :: int64
  totalSize :: int64
  nbHashed :: int64
  bytesHashed :: int64
  nbNotHashed :: int64
  bytesNotHashed :: int64
  nbArchived :: int64
  bytesArchived :: int64
  nbNotArchived :: int64
  bytesNotArchived :: int64

text \<open>
  What \<open>EnumerateTree\<close> sends on its channel: \<open>item.FullPath\<close>, \<open>item.FileInfo\<close> and
  \<open>item.Error\<close>.
\<close>

record TreeItem =
  FullPath :: string
  Info :: FileInfo
  Error :: "error option"

text \<open>\<open>type itemToArchive struct { fullPath, relPath, sha1 string; size int64 }\<close>\<close>

record itemToArchive =
  a_fullPath :: string
  a_relPath :: string
  a_sha1 :: string
  a_size :: int64

text \<open>
  How a stage's goroutine ends: it closes its output after draining its input, it closes
  its output on the interrupt, or it panics (which ends the program).
\<close>

datatype exit = Finished | Interrupted | Panicked

text \<open>
  Every \<open>select\<close> of a stage has a case on \<open>InterruptedChannel\<close>. Which case a
  \<open>select\<close> takes is the scheduler's choice, so a stage is given the choices in
  order, one for each \<open>select\<close> it runs: \<open>True\<close> where the interrupt case is taken. When
  the list is used up the interrupt never fires.
\<close>

definition interrupted :: "bool list \<Rightarrow> bool" where
  "interrupted intr = (case intr of [] \<Rightarrow> False | b # _ \<Rightarrow> b)"

section \<open>Go's path and strings functions the program calls\<close>

text \<open>\<open>strings.Split(s, string(sep))\<close> for a one-byte separator: it always
  returns at least one string.\<close>

fun splitOn :: "char \<Rightarrow> string \<Rightarrow> string list" where
  "splitOn sep [] = [[]]"
| "splitOn sep (c # cs) =
     (if c = sep then [] # splitOn sep cs
      else (case splitOn sep cs of
              [] \<Rightarrow> [[c]]
            | w # ws \<Rightarrow> (c # w) # ws))"

text \<open>\<open>strings.Join(elems, "/")\<close>\<close>

fun joinSlash :: "string list \<Rightarrow> string" where
  "joinSlash [] = []"
| "joinSlash [e] = e"
| "joinSlash (e # es) = e @ ''/'' @ joinSlash es"

text \<open>
  \<open>strings.Replace(s, old, new, n)\<close> for a non-empty \<open>old\<close> (the program passes
  \<open>"/"\<close>): the first \<open>n\<close> non-overlapping occurrences of \<open>old\<close> are replaced, all of
  them when \<open>n < 0\<close>, and \<open>s\<close> is returned as it is when \<open>old = new\<close> or \<open>n = 0\<close>.
  \<open>replaceFrom skip n\<close> scans the rest of the string, \<open>skip\<close> bytes of it still belonging
  to the occurrence just replaced.
\<close>

fun replaceFrom :: "nat \<Rightarrow> int \<Rightarrow> string \<Rightarrow> string \<Rightarrow> string \<Rightarrow> string" where
  "replaceFrom skip n old new [] = []"
| "replaceFrom skip n old new (c # cs) =
     (if 0 < skip then replaceFrom (skip - 1) n old new cs
      else if n \<noteq> 0 \<and> old \<noteq> [] \<and> take (length old) (c # cs) = old
        then new @ replaceFrom (length old - 1) (n - 1) old new cs
      else c # replaceFrom 0 n old new cs)"

definition strings_Replace :: "string \<Rightarrow> string \<Rightarrow> string \<Rightarrow> int \<Rightarrow> string" where
  "strings_Replace s old new n =
     (if old = new \<or> n = 0 then s else replaceFrom 0 n old new s)"

text \<open>\<open>path.IsAbs\<close>: the path starts with a slash.\<close>

definition path_IsAbs :: "string \<Rightarrow> bool" where
  "path_IsAbs p = (case p of [] \<Rightarrow> False | c # _ \<Rightarrow> c = CHR ''/'')"

text \<open>
  \<open>path.Clean\<close>, on the path's elements: empty elements and \<open>.\<close> are dropped, \<open>..\<close>
  removes the element before it when there is one to remove, is dropped at the root of
  a rooted path and is kept otherwise; the empty result is \<open>.\<close>. \<open>cleanStep\<close> holds
  the elements kept so far, last one first.
\<close>

definition cleanStep :: "bool \<Rightarrow> string list \<Rightarrow> string \<Rightarrow> string list" where
  "cleanStep rooted kept e =
     (if e = [] \<or> e = ''.'' then kept
      else if e = ''..'' then
        (case kept of
           [] \<Rightarrow> if rooted then [] else [''..'']
         | k # ks \<Rightarrow> if k = ''..'' then ''..'' # kept else ks)
      else e # kept)"

definition path_Clean :: "string \<Rightarrow> string" where
  "path_Clean p =
     (let rooted = path_IsAbs p;
          body = joinSlash (rev (foldl (cleanStep rooted) [] (splitOn (CHR ''/'') p)))
      in if rooted then CHR ''/'' # body
         else if body = [] then ''.'' else body)"

text \<open>\<open>path.Join\<close>: the non-empty elements joined with slashes and cleaned; the empty
  string when there is none.\<close>

definition path_Join :: "string list \<Rightarrow> string" where
  "path_Join elem =
     (let es = filter (\<lambda>e. e \<noteq> []) elem
      in if es = [] then [] else path_Clean (joinSlash es))"

text \<open>
  \<open>path.Base\<close>: \<open>.\<close> for the empty path; otherwise the trailing slashes are stripped
  and what follows the last slash is returned, \<open>/\<close> when nothing is left.
\<close>

definition path_Base :: "string \<Rightarrow> string" where
  "path_Base p =
     (if p = [] then ''.''
      else let q = rev (dropWhile (\<lambda>c. c = CHR ''/'') (rev p));
               b = rev (takeWhile (\<lambda>c. c \<noteq> CHR ''/'') (rev q))
           in if b = [] then ''/'' else b)"

section \<open>cleanupList\<close>

text \<open>
  \<open>cleanupList(relDir string, inputs []string)\<close> rewrites the slice in place; the model
  returns the rewritten list. \<open>os.ExpandEnv\<close> depends on the process environment and is
  the parameter \<open>os_ExpandEnv\<close>; \<open>filepath.Separator\<close> depends on the platform the
  program is built for (a slash, or a backslash on Windows) and is the parameter
  \<open>Separator\<close>. The count the source passes to \<open>strings.Replace\<close> is 0.
\<close>

definition cleanupItem :: "(string \<Rightarrow> string) \<Rightarrow> char \<Rightarrow> string \<Rightarrow> string \<Rightarrow> string" where
  "cleanupItem os_ExpandEnv Separator relDir item0 =
     (let item1 = os_ExpandEnv item0;
          item2 = strings_Replace item1 ''/'' [Separator] 0;
          item3 = (if \<not> path_IsAbs item2 then path_Join [relDir, item2] else item2)
      in path_Clean item3)"

definition cleanupList ::
  "(string \<Rightarrow> string) \<Rightarrow> char \<Rightarrow> string \<Rightarrow> string list \<Rightarrow> string list" where
  "cleanupList os_ExpandEnv Separator relDir inputs =
     map (cleanupItem os_ExpandEnv Separator relDir) inputs"

section \<open>Stage A: enumerateInputs\<close>

text \<open>
  \<open>enumerateInputs\<close> returns the counters as its goroutine leaves them, the items it has
  sent on its output channel, in order, and how it ended. \<open>os.Stat\<close> is the parameter
  \<open>os_Stat\<close>. \<open>EnumerateTree\<close> is declared outside the sources at hand: the parameter
  \<open>EnumerateTree\<close> gives, for a directory, the items its channel delivers before it is
  closed. The source receives from that channel in a \<open>select\<close> that is not inside a
  loop, once for each directory input: the empty list is the receive that finds the
  channel closed. The slice expression \<open>item.FullPath[len(input)+1:]\<close> panics when
  \<open>len(input)+1\<close> exceeds the length of \<open>item.FullPath\<close>.
\<close>

fun enumerateInputs ::
  "(string \<Rightarrow> error + FileInfo) \<Rightarrow> (string \<Rightarrow> TreeItem list) \<Rightarrow> bool list \<Rightarrow> Stats
     \<Rightarrow> string list \<Rightarrow> Stats \<times> inputItem list \<times> exit" where
  "enumerateInputs os_Stat EnumerateTree intr s [] = (s, [], Finished)"
| "enumerateInputs os_Stat EnumerateTree intr s (input # inputs) =
     (case os_Stat input of
        Inl err \<Rightarrow>
          enumerateInputs os_Stat EnumerateTree intr (s\<lparr>errors := errors s + 1\<rparr>) inputs
      | Inr stat \<Rightarrow>
          if fi_IsDir stat then
            (if interrupted intr then (s\<lparr>errors := errors s + 1\<rparr>, [], Interrupted)
             else
               (case EnumerateTree input of
                  [] \<Rightarrow> enumerateInputs os_Stat EnumerateTree (tl intr) s inputs
                | item # _ \<Rightarrow>
                    if Error item \<noteq> None then
                      enumerateInputs os_Stat EnumerateTree (tl intr)
                        (s\<lparr>errors := errors s + 1\<rparr>) inputs
                    else if \<not> fi_IsDir (Info item) then
                      (if length (FullPath item) < length input + 1
                       then (s\<lparr>found := found s + 1\<rparr>, [], Panicked)
                       else
                         (case enumerateInputs os_Stat EnumerateTree (tl intr)
                                 (s\<lparr>found := found s + 1\<rparr>) inputs of
                            (s', out, ex) \<Rightarrow>
                              (s', \<lparr>fullPath = FullPath item,
                                    relPath = drop (length input + 1) (FullPath item),
                                    info = Info item\<rparr> # out, ex)))
                    else enumerateInputs os_Stat EnumerateTree (tl intr) s inputs))
          else
            (case enumerateInputs os_Stat EnumerateTree intr
                    (s\<lparr>found := found s + 1, totalSize := totalSize s + fi_Size stat\<rparr>)
                    inputs of
               (s', out, ex) \<Rightarrow>
                 (s', \<lparr>fullPath = input, relPath = path_Base input, info = stat\<rparr> # out,
                  ex)))"

section \<open>Stage B: hashInputs\<close>

text \<open>
  Modelled from the spec: \<open>FindInCache\<close>, which is declared outside the sources at hand.
  It returns the existing record for the path, or a zero-valued record inserted now; the
  caller mutates the record in place. The cache is a map from paths to records, and
  \<open>hashInputs\<close> stores the record back after \<open>updateFile\<close> has worked on it.
\<close>

definition FindInCache :: "(string \<rightharpoonup> EntryCache) \<Rightarrow> string \<Rightarrow> EntryCache" where
  "FindInCache cache p =
     (case cache p of
        Some r \<Rightarrow> r
      | None \<Rightarrow> \<lparr>Sha1 = [], Size = 0, Timestamp = 0, LastTested = 0\<rparr>)"

text \<open>
  \<open>hashInputs\<close> receives the items of its input channel until it is closed. \<open>clock k\<close> is
  what \<open>time.Now().Unix()\<close> gives at the \<open>k\<close>-th call of \<open>updateFile\<close>; \<open>cache\<close> is the
  cache \<open>LoadCache\<close> returned. The result is the counters, the cache, the items sent on
  the output channel and how the goroutine ended. A directory among the items is the
  \<open>panic\<close> of the source.
\<close>

fun hashInputs ::
  "(string \<Rightarrow> error + string) \<Rightarrow> (nat \<Rightarrow> int64) \<Rightarrow> bool list \<Rightarrow> nat
     \<Rightarrow> (string \<rightharpoonup> EntryCache) \<Rightarrow> Stats \<Rightarrow> inputItem list
     \<Rightarrow> Stats \<times> (string \<rightharpoonup> EntryCache) \<times> itemToArchive list \<times> exit" where
  "hashInputs sha1FilePath clock intr k cache s [] =
     (if interrupted intr then (s\<lparr>errors := errors s + 1\<rparr>, cache, [], Interrupted)
      else (s, cache, [], Finished))"
| "hashInputs sha1FilePath clock intr k cache s (item # inputs) =
     (if interrupted intr then (s\<lparr>errors := errors s + 1\<rparr>, cache, [], Interrupted)
      else if fi_IsDir (info item) then (s, cache, [], Panicked)
      else
        (let size = fi_Size (info item);
             cachedItem = FindInCache cache (fullPath item)
         in case updateFile sha1FilePath (clock k) cachedItem item of
              (cachedItem', wasHashed, Some err) \<Rightarrow>
                hashInputs sha1FilePath clock (tl intr) (k + 1)
                  (cache(fullPath item \<mapsto> cachedItem')) (s\<lparr>errors := errors s + 1\<rparr>) inputs
            | (cachedItem', wasHashed, None) \<Rightarrow>
                (case hashInputs sha1FilePath clock (tl intr) (k + 1)
                        (cache(fullPath item \<mapsto> cachedItem'))
                        (if wasHashed
                         then s\<lparr>nbHashed := nbHashed s + 1, bytesHashed := bytesHashed s + size\<rparr>
                         else s\<lparr>nbNotHashed := nbNotHashed s + 1,
                                bytesNotHashed := bytesNotHashed s + size\<rparr>)
                        inputs of
                   (s', cache', out, ex) \<Rightarrow>
                     (s', cache',
                      \<lparr>a_fullPath = fullPath item, a_relPath = relPath item,
                        a_sha1 = Sha1 cachedItem', a_size = size\<rparr> # out, ex))))"

section \<open>Stage C: archiveItem, makeEntry, archiveInputs\<close>

text \<open>
  \<open>archiveItem(item itemToArchive, cas CasTable)\<close>. \<open>os.Open\<close> is the parameter
  \<open>os_Open\<close>. \<open>CasTable\<close> is an interface: the table is a value of any type \<open>'cas\<close> and its
  method \<open>AddEntry\<close> is the parameter \<open>cas_AddEntry\<close>, which returns the error (nil is
  \<open>None\<close>) and the table as the call leaves it.
\<close>

definition archiveItem ::
  "(string \<Rightarrow> error + 'f) \<Rightarrow> ('cas \<Rightarrow> 'f \<Rightarrow> string \<Rightarrow> error option \<times> 'cas) \<Rightarrow> Stats
     \<Rightarrow> itemToArchive \<Rightarrow> 'cas \<Rightarrow> Stats \<times> 'cas" where
  "archiveItem os_Open cas_AddEntry s item cas =
     (case os_Open (a_fullPath item) of
        Inl err \<Rightarrow> (s\<lparr>errors := errors s + 1\<rparr>, cas)
      | Inr f \<Rightarrow>
          (case cas_AddEntry cas f (a_sha1 item) of
             (err, cas') \<Rightarrow>
               if os_IsExist err then
                 (s\<lparr>nbNotArchived := nbNotArchived s + 1,
                    bytesNotArchived := bytesNotArchived s + a_size item\<rparr>, cas')
               else if err = None then
                 (s\<lparr>nbArchived := nbArchived s + 1,
                    bytesArchived := bytesArchived s + a_size item\<rparr>, cas')
               else (s\<lparr>errors := errors s + 1\<rparr>, cas')))"

text \<open>
  The manifest: \<open>type Entry struct { Files map[string]*Entry; Sha1 string; Size int64 }\<close>,
  the map as an association list. \<open>makeEntry\<close> walks the elements of \<open>relPath\<close>, creating
  the entries that are missing, and writes the digest and the size at the last one.
\<close>

datatype Entry = Entry (Files: "(string \<times> Entry) list") (e_Sha1: string) (e_Size: int64)

fun makeEntryAt :: "Entry \<Rightarrow> string list \<Rightarrow> string \<Rightarrow> int64 \<Rightarrow> Entry" where
  "makeEntryAt (Entry files sha sz) [] sha1 size1 = Entry files sha1 size1"
| "makeEntryAt (Entry files sha sz) (p # ps) sha1 size1 =
     Entry (AList.update p
             (makeEntryAt (case map_of files p of None \<Rightarrow> Entry [] [] 0 | Some e \<Rightarrow> e)
                ps sha1 size1)
             files) sha sz"

definition makeEntry :: "char \<Rightarrow> Entry \<Rightarrow> itemToArchive \<Rightarrow> Entry" where
  "makeEntry Separator root item =
     makeEntryAt root (splitOn Separator (a_relPath item)) (a_sha1 item) (a_size item)"

text \<open>
  The loop of \<open>archiveInputs\<close>: the counters, the table and the root entry after the
  items, and whether the loop was left on the interrupt.
\<close>

fun archiveLoop ::
  "(string \<Rightarrow> error + 'f) \<Rightarrow> ('cas \<Rightarrow> 'f \<Rightarrow> string \<Rightarrow> error option \<times> 'cas) \<Rightarrow> char
     \<Rightarrow> bool list \<Rightarrow> Stats \<Rightarrow> 'cas \<Rightarrow> Entry \<Rightarrow> itemToArchive list
     \<Rightarrow> Stats \<times> 'cas \<times> Entry \<times> bool" where
  "archiveLoop os_Open cas_AddEntry Separator intr s cas entryRoot [] =
     (if interrupted intr then (s\<lparr>errors := errors s + 1\<rparr>, cas, entryRoot, True)
      else (s, cas, entryRoot, False))"
| "archiveLoop os_Open cas_AddEntry Separator intr s cas entryRoot (item # items) =
     (if interrupted intr then (s\<lparr>errors := errors s + 1\<rparr>, cas, entryRoot, True)
      else
        (case archiveItem os_Open cas_AddEntry s item cas of
           (s', cas') \<Rightarrow>
             archiveLoop os_Open cas_AddEntry Separator (tl intr) s' cas'
               (makeEntry Separator entryRoot item) items))"

text \<open>
  \<open>archiveInputs\<close>: the counters, the table, and the strings sent on the output channel
  before it is closed. \<open>json.Marshal\<close> is the parameter \<open>json_Marshal\<close>; \<open>AddBytes\<close>,
  declared outside the sources at hand, is the parameter \<open>AddBytes\<close>, which returns the
  digest, the error and the table as the call leaves it.
\<close>

definition archiveInputs ::
  "(string \<Rightarrow> error + 'f) \<Rightarrow> ('cas \<Rightarrow> 'f \<Rightarrow> string \<Rightarrow> error option \<times> 'cas)
     \<Rightarrow> (Entry \<Rightarrow> error + string) \<Rightarrow> ('cas \<Rightarrow> string \<Rightarrow> string \<times> error option \<times> 'cas)
     \<Rightarrow> char \<Rightarrow> bool list \<Rightarrow> Stats \<Rightarrow> 'cas \<Rightarrow> itemToArchive list
     \<Rightarrow> Stats \<times> 'cas \<times> string list" where
  "archiveInputs os_Open cas_AddEntry json_Marshal AddBytes Separator intr s cas items =
     (case archiveLoop os_Open cas_AddEntry Separator intr s cas (Entry [] [] 0) items of
        (s1, cas1, entryRoot, wasInterrupted) \<Rightarrow>
          if wasInterrupted then (s1, cas1, [])
          else
            (case json_Marshal entryRoot of
               Inl err \<Rightarrow> (s1\<lparr>errors := errors s1 + 1\<rparr>, cas1, [[]])
             | Inr data \<Rightarrow>
                 (case AddBytes cas1 data of
                    (entrySha1, err, cas2) \<Rightarrow>
                      if os_IsExist err then
                        (s1\<lparr>nbNotArchived := nbNotArchived s1 + 1,
                            bytesNotArchived := bytesNotArchived s1 + of_nat (length data)\<rparr>,
                         cas2, [entrySha1])
                      else if err = None then
                        (s1\<lparr>nbArchived := nbArchived s1 + 1,
                            bytesArchived := bytesArchived s1 + of_nat (length data)\<rparr>,
                         cas2, [entrySha1])
                      else (s1\<lparr>errors := errors s1 + 1\<rparr>, cas2, [[]]))))"

section \<open>The nodes table of the tests: mockNodesTable.AddEntry\<close>

text \<open>\<open>type Node struct { Entry string; Comment string }\<close>\<close>

record Node =
  n_Entry :: string
  n_Comment :: string

text \<open>
  \<open>time.Now().UTC()\<close>, as the calendar fields its two \<open>Format\<close> calls print.
  \<open>itoa\<close> is the decimal notation of \<open>%d\<close>; \<open>pad w\<close> is the zero-padded field of
  width \<open>w\<close> of the layouts \<open>2006\<close> (four digits) and \<open>01\<close>, \<open>02\<close>, \<open>15\<close>, \<open>04\<close>,
  \<open>05\<close> (two digits).
\<close>

record utc =
  year :: nat
  month :: nat
  day :: nat
  hour :: nat
  minute :: nat
  second :: nat

fun itoa :: "nat \<Rightarrow> string" where
  "itoa n =
     (if n < 10 then [char_of (48 + n)]
      else itoa (n div 10) @ [char_of (48 + n mod 10)])"

declare itoa.simps [simp del]

definition pad :: "nat \<Rightarrow> nat \<Rightarrow> string" where
  "pad w n = replicate (w - length (itoa n)) (CHR ''0'') @ itoa n"

text \<open>\<open>now.Format("2006-01")\<close>\<close>

definition monthName :: "utc \<Rightarrow> string" where
  "monthName now = pad 4 (year now) @ ''-'' @ pad 2 (month now)"

text \<open>\<open>now.Format("2006-01-02_15-04-05")\<close>\<close>

definition stamp :: "utc \<Rightarrow> string" where
  "stamp now =
     pad 4 (year now) @ ''-'' @ pad 2 (month now) @ ''-'' @ pad 2 (day now) @ ''_''
       @ pad 2 (hour now) @ ''-'' @ pad 2 (minute now) @ ''-'' @ pad 2 (second now)"

text \<open>The candidate of the loop for a value of \<open>suffix\<close>:
  \<open>monthName + "/" + stamp + "_" + name\<close>, with \<open>"(suffix)"\<close> appended when
  \<open>suffix != 0\<close>.\<close>

definition nodePath :: "utc \<Rightarrow> string \<Rightarrow> nat \<Rightarrow> string" where
  "nodePath now name suffix =
     monthName now @ ''/'' @ stamp now @ ''_'' @ name
       @ (if suffix \<noteq> 0 then ''('' @ itoa suffix @ '')'' else [])"

text \<open>
  Modelled from the spec: the constant \<open>tagsName\<close>, which is declared outside the
  sources at hand. The spec binds the tag at \<open>tags/<basename>\<close>.
\<close>

definition tagsName :: string where
  "tagsName = ''tags''"

text \<open>
  The \<open>for\<close> loop of \<open>AddEntry\<close> ("try ad nauseam"): \<open>m.entries\<close> is a Go map, here
  an association list read with \<open>map_of\<close>. The loop returns the path it has claimed
  and the entries with the node stored there. It ends because the candidates differ
  from one another and the table is finite.
\<close>

function AddEntry_loop ::
  "utc \<Rightarrow> string \<Rightarrow> Node \<Rightarrow> (string \<times> Node) list \<Rightarrow> nat
     \<Rightarrow> string \<times> (string \<times> Node) list" where
  "AddEntry_loop now name node entries suffix =
     (if map_of entries (nodePath now name suffix) = None
      then (nodePath now name suffix, AList.update (nodePath now name suffix) node entries)
      else AddEntry_loop now name node entries (suffix + 1))"
  by pat_completeness auto
termination
proof (relation "measure (\<lambda>(now, name, node, entries, suffix).
          card {n. suffix \<le> n \<and> nodePath now name n \<in> fst ` set entries})")
  show "wf (measure (\<lambda>(now, name, node, entries, suffix).
          card {n. suffix \<le> n \<and> nodePath now name n \<in> fst ` set entries}))"
    by simp
next
  fix now :: utc and name :: string and node :: Node
    and entries :: "(string \<times> Node) list" and suffix :: nat
  assume taken: "map_of entries (nodePath now name suffix) \<noteq> None"
  let ?S = "\<lambda>k. {n. k \<le> n \<and> nodePath now name n \<in> fst ` set entries}"
  define val where "val = foldl (\<lambda>a c. 10 * a + (of_char c - (48::nat))) 0"
  have val_itoa: "val (itoa k) = k" for k
  proof (induction k rule: itoa.induct)
    case (1 n)
    show ?case
    proof (cases "n < 10")
      case True
      then show ?thesis by (subst itoa.simps) (simp add: val_def)
    next
      case False
      with 1 have "val (itoa (n div 10)) = n div 10" by simp
      with False show ?thesis by (subst itoa.simps) (simp add: val_def)
    qed
  qed
  have "inj (nodePath now name)"
  proof (rule injI)
    fix a b
    assume "nodePath now name a = nodePath now name b"
    then have "a = 0 \<and> b = 0 \<or> itoa a = itoa b"
      by (auto simp add: nodePath_def split: if_splits)
    then show "a = b"
    proof
      assume "a = 0 \<and> b = 0"
      then show ?thesis by simp
    next
      assume "itoa a = itoa b"
      then have "val (itoa a) = val (itoa b)" by (rule arg_cong)
      then show ?thesis by (simp only: val_itoa)
    qed
  qed
  then have "finite {n. nodePath now name n \<in> fst ` set entries}"
    using finite_vimageI [of "fst ` set entries" "nodePath now name"]
    by (simp add: vimage_def)
  then have fin: "finite (?S suffix)"
    by (rule rev_finite_subset) auto
  have "suffix \<in> ?S suffix"
    using taken by (auto simp add: map_of_eq_None_iff)
  moreover have "suffix \<notin> ?S (suffix + 1)" by simp
  moreover have "?S (suffix + 1) \<subseteq> ?S suffix" by auto
  ultimately have "?S (suffix + 1) \<subset> ?S suffix" by blast
  then have "card (?S (suffix + 1)) < card (?S suffix)"
    using fin by (rule psubset_card_mono [rotated])
  then show "((now, name, node, entries, suffix + 1), now, name, node, entries, suffix)
      \<in> measure (\<lambda>(now, name, node, entries, suffix).
          card {n. suffix \<le> n \<and> nodePath now name n \<in> fst ` set entries})"
    by simp
qed

declare AddEntry_loop.simps [simp del]

text \<open>
  \<open>AddEntry(node *Node, name string) error\<close>: the loop from \<open>suffix = 0\<close>, then the tag
  \<open>tagsName + "/" + name\<close> is bound to the node. The error it returns is always nil, so
  the model returns the entries only.
\<close>

definition AddEntry ::
  "utc \<Rightarrow> (string \<times> Node) list \<Rightarrow> Node \<Rightarrow> string \<Rightarrow> (string \<times> Node) list" where
  "AddEntry now entries node name =
     AList.update (tagsName @ ''/'' @ name) node
       (snd (AddEntry_loop now name node entries 0))"

section \<open>The driver: the loop of archiveRun.main\<close>

text \<open>
  The case a \<open>select\<close> of the driver takes: the interrupt, a receive on the channel of
  \<open>archiveInputs\<close> (a digest, or \<open>None\<close> when the channel is closed), or the five-second
  tick. The stages run concurrently, so each event comes with the counters as the
  driver reads them while it handles the event.
\<close>

datatype event = EvInterrupted | EvEntry "string option" | EvTick

text \<open>What the channel of \<open>archiveInputs\<close> delivers: the strings sent, then closed.\<close>

definition channelEvents :: "string list \<Rightarrow> event list" where
  "channelEvents out = map (\<lambda>d. EvEntry (Some d)) out @ [EvEntry None]"

text \<open>The errors the driver returns: "Was interrupted.", "Got %d errors!",
  "Was likely interrupted." and "Unexpected error.".\<close>

datatype mainError = WasInterrupted | GotErrors int64 | LikelyInterrupted | UnexpectedError

text \<open>
  A progress line shows the eleven counters (the byte counters through \<open>toMb\<close>, which is
  floating point and is left out): a line is the counters printed and the byte that
  ends it, a newline for the final line and a carriage return for a tick.
\<close>

datatype line = Line Stats char

text \<open>
  The \<open>for\<close>/\<open>select\<close> loop of \<open>main\<close>. \<open>NodesTable\<close> is an interface: the table is
  a value of any type \<open>'n\<close> and its method \<open>AddEntry\<close> is the parameter
  \<open>nodes_AddEntry\<close>; the error it returns is assigned and never read. The result is
  what \<open>main\<close> returns (\<open>None\<close> while it is still waiting for an event, \<open>Some None\<close>
  for nil), the nodes table and the lines printed.
\<close>

fun mainLoop ::
  "('n \<Rightarrow> Node \<Rightarrow> string \<Rightarrow> 'n) \<Rightarrow> string \<Rightarrow> string \<Rightarrow> 'n \<Rightarrow> (event \<times> Stats) list
     \<Rightarrow> mainError option option \<times> 'n \<times> line list" where
  "mainLoop nodes_AddEntry comment toArchive nodes [] = (None, nodes, [])"
| "mainLoop nodes_AddEntry comment toArchive nodes ((EvInterrupted, s) # evs) =
     (Some (Some WasInterrupted), nodes, [])"
| "mainLoop nodes_AddEntry comment toArchive nodes ((EvEntry None, s) # evs) =
     (if errors s \<noteq> 0 then (Some (Some (GotErrors (errors s))), nodes, [])
      else (Some (Some LikelyInterrupted), nodes, []))"
| "mainLoop nodes_AddEntry comment toArchive nodes ((EvEntry (Some item), s) # evs) =
     (if item \<noteq> [] then
        (Some None,
         nodes_AddEntry nodes \<lparr>n_Entry = item, n_Comment = comment\<rparr> (path_Base toArchive),
         [Line s (CHR 0x0A)])
      else if errors s \<noteq> 0 then (Some (Some (GotErrors (errors s))), nodes, [])
      else (Some (Some UnexpectedError), nodes, []))"
| "mainLoop nodes_AddEntry comment toArchive nodes ((EvTick, s) # evs) =
     (case mainLoop nodes_AddEntry comment toArchive nodes evs of
        (r, nodes', out) \<Rightarrow> (r, nodes', Line s (CHR 0x0D) # out))"

text \<open>\<open>s := Stats{log: a.GetLog()}\<close> of \<open>main\<close>: every counter starts at zero.\<close>

definition newStats :: Stats where
  "newStats = \<lparr>errors = 0, found = 0, totalSize = 0, nbHashed = 0, bytesHashed = 0,
       nbNotHashed = 0, bytesNotHashed = 0, nbArchived = 0, bytesArchived = 0,
       nbNotArchived = 0, bytesNotArchived = 0\<rparr>"

section \<open>Properties of updateFile\<close>

text \<open>
  C5. When the record's size and timestamp equal the item's, \<open>updateFile\<close> sets only
  \<open>LastTested\<close> to now and answers unchanged, whatever reading the file would give (the
  result does not depend on \<open>sha1FilePath\<close>: the contents are not read). Otherwise, with
  \<open>digest\<close> the SHA-1 of the file's contents, it sets the four fields to
  (digest, size, mtime, now) and answers re-hashed.
\<close>

theorem updateFile_fast_or_rehash:
  "(Size cache = fi_Size (info item) \<and> Timestamp cache = fi_ModTime (info item) \<longrightarrow>
      (\<forall>h. updateFile h now cache item = (cache\<lparr>LastTested := now\<rparr>, False, None)))
   \<and> (\<not> (Size cache = fi_Size (info item) \<and> Timestamp cache = fi_ModTime (info item)) \<and>
        sha1FilePath (fullPath item) = Inr digest \<longrightarrow>
      updateFile sha1FilePath now cache item =
        (\<lparr>Sha1 = digest, Size = fi_Size (info item), Timestamp = fi_ModTime (info item),
          LastTested = now\<rparr>, True, None))"
  by (cases cache) (auto simp add: updateFile_def Let_def)

theorem updateFile_fast_or_rehash_witness:
  "updateFile (\<lambda>p. Inl (Err False ''unreadable'')) 7
      \<lparr>Sha1 = ''aa'', Size = 3, Timestamp = 5, LastTested = 6\<rparr>
      \<lparr>fullPath = ''/d/f'', relPath = ''f'',
        info = \<lparr>fi_IsDir = False, fi_Size = 3, fi_ModTime = 5\<rparr>\<rparr>
     = (\<lparr>Sha1 = ''aa'', Size = 3, Timestamp = 5, LastTested = 7\<rparr>, False, None)
   \<and> updateFile (\<lambda>p. Inr ''bb'') 7
      \<lparr>Sha1 = ''aa'', Size = 3, Timestamp = 5, LastTested = 6\<rparr>
      \<lparr>fullPath = ''/d/f'', relPath = ''f'',
        info = \<lparr>fi_IsDir = False, fi_Size = 4, fi_ModTime = 5\<rparr>\<rparr>
     = (\<lparr>Sha1 = ''bb'', Size = 4, Timestamp = 5, LastTested = 7\<rparr>, True, None)"
  using updateFile_fast_or_rehash
    [of "\<lparr>Sha1 = ''aa'', Size = 3, Timestamp = 5, LastTested = 6\<rparr>"
        "\<lparr>fullPath = ''/d/f'', relPath = ''f'',
          info = \<lparr>fi_IsDir = False, fi_Size = 3, fi_ModTime = 5\<rparr>\<rparr>"
        7 "\<lambda>p. Inr ''bb''" "''bb''"]
    updateFile_fast_or_rehash
    [of "\<lparr>Sha1 = ''aa'', Size = 3, Timestamp = 5, LastTested = 6\<rparr>"
        "\<lparr>fullPath = ''/d/f'', relPath = ''f'',
          info = \<lparr>fi_IsDir = False, fi_Size = 4, fi_ModTime = 5\<rparr>\<rparr>"
        7 "\<lambda>p. Inr ''bb''" "''bb''"]
  by simp

text \<open>
  C9. When the record does not match the item, so that the file is hashed, and hashing
  fails, \<open>updateFile\<close> returns that error and the record as it was: none of
  \<open>Sha1\<close>, \<open>Size\<close>, \<open>Timestamp\<close>, \<open>LastTested\<close> has changed.
\<close>

theorem updateFile_error_keeps_record:
  assumes "\<not> (Size cache = fi_Size (info item) \<and> Timestamp cache = fi_ModTime (info item))"
    and "sha1FilePath (fullPath item) = Inl err"
  shows "updateFile sha1FilePath now cache item = (cache, False, Some err)"
  using assms by (auto simp add: updateFile_def Let_def)

theorem updateFile_error_keeps_record_witness:
  "updateFile (\<lambda>p. Inl (Err False ''unreadable'')) 7
      \<lparr>Sha1 = ''aa'', Size = 3, Timestamp = 5, LastTested = 6\<rparr>
      \<lparr>fullPath = ''/d/f'', relPath = ''f'',
        info = \<lparr>fi_IsDir = False, fi_Size = 4, fi_ModTime = 5\<rparr>\<rparr>
     = (\<lparr>Sha1 = ''aa'', Size = 3, Timestamp = 5, LastTested = 6\<rparr>, False,
        Some (Err False ''unreadable''))"
  using updateFile_error_keeps_record
    [of "\<lparr>Sha1 = ''aa'', Size = 3, Timestamp = 5, LastTested = 6\<rparr>"
        "\<lparr>fullPath = ''/d/f'', relPath = ''f'',
          info = \<lparr>fi_IsDir = False, fi_Size = 4, fi_ModTime = 5\<rparr>\<rparr>"
        "\<lambda>p. Inl (Err False ''unreadable'')" "Err False ''unreadable''" 7]
  by simp

section \<open>Properties of cleanupList\<close>

text \<open>
  C3. The claim is that \<open>cleanupList\<close> replaces every slash of an element with the
  native path separator. The count passed to \<open>strings.Replace\<close> is 0, so nothing is
  replaced: with the backslash as separator, the element \<open>a/b\<close> and the directory
  \<open>/home/u\<close> give \<open>/home/u/a/b\<close>, its slashes kept.
\<close>

theorem cleanupList_keeps_slashes:
  "cleanupList (\<lambda>s. s) (CHR 0x5C) ''/home/u'' [''a/b''] = [''/home/u/a/b'']"
  by (simp add: cleanupList_def cleanupItem_def strings_Replace_def path_IsAbs_def
        path_Join_def path_Clean_def cleanStep_def)

section \<open>Properties of enumerateInputs\<close>

text \<open>
  C1. The claim is that every regular file of a directory input is sent. The source
  receives once from the tree's channel and moves on to the next input: for the
  directory \<open>/d\<close> whose tree delivers the regular files \<open>/d/a\<close> and \<open>/d/b\<close>, only
  \<open>/d/a\<close> is sent and \<open>found\<close> is 1.
\<close>

theorem enumerateInputs_first_tree_item_only:
  "enumerateInputs
      (\<lambda>p. Inr \<lparr>fi_IsDir = True, fi_Size = 0, fi_ModTime = 0\<rparr>)
      (\<lambda>p. [\<lparr>FullPath = ''/d/a'', Info = \<lparr>fi_IsDir = False, fi_Size = 1, fi_ModTime = 0\<rparr>,
               Error = None\<rparr>,
             \<lparr>FullPath = ''/d/b'', Info = \<lparr>fi_IsDir = False, fi_Size = 2, fi_ModTime = 0\<rparr>,
               Error = None\<rparr>])
      [] newStats [''/d'']
   = (newStats\<lparr>found := 1\<rparr>,
      [\<lparr>fullPath = ''/d/a'', relPath = ''a'',
         info = \<lparr>fi_IsDir = False, fi_Size = 1, fi_ModTime = 0\<rparr>\<rparr>],
      Finished)"
  by (simp add: interrupted_def newStats_def)

section \<open>Properties of the driver\<close>

lemma mainLoop_ticks:
  "mainLoop f comment toArchive nodes (map (\<lambda>s. (EvTick, s)) ticks @ evs) =
     (case mainLoop f comment toArchive nodes evs of
        (r, nodes', out) \<Rightarrow> (r, nodes', map (\<lambda>s. Line s (CHR 0x0D)) ticks @ out))"
  by (induction ticks) (auto split: prod.splits)

text \<open>
  C2, as the claim states it, fails: the driver receives the non-empty digest \<open>da39\<close>
  while the error counter is 3, registers the node and returns nil.
\<close>

theorem mainLoop_success_despite_errors:
  "mainLoop (\<lambda>nodes node name. (name, node) # nodes) ''c'' ''/home/u/list'' []
      [(EvEntry (Some ''da39''), newStats\<lparr>errors := 3\<rparr>)]
   = (Some None, [(''list'', \<lparr>n_Entry = ''da39'', n_Comment = ''c''\<rparr>)],
      [Line (newStats\<lparr>errors := 3\<rparr>) (CHR 0x0A)])"
  by (simp add: path_Base_def)

text \<open>
  C2, amended. Whenever the driver receives a non-empty digest, after any number of
  ticks and whatever the counters are (the error counter too), it registers the node
  under the base name of the list file, prints the final line, which shows the
  counters, and returns nil.
\<close>

theorem mainLoop_digest_returns_nil:
  "mainLoop nodes_AddEntry comment toArchive nodes
      (map (\<lambda>s. (EvTick, s)) ticks @ (EvEntry (Some (c # cs)), s) # evs)
   = (Some None,
      nodes_AddEntry nodes \<lparr>n_Entry = c # cs, n_Comment = comment\<rparr> (path_Base toArchive),
      map (\<lambda>s. Line s (CHR 0x0D)) ticks @ [Line s (CHR 0x0A)])"
  by (simp add: mainLoop_ticks)

section \<open>Properties of the archive stage\<close>

text \<open>
  C7. \<open>archiveItem\<close>: when the file cannot be opened, or \<open>AddEntry\<close> fails with an error
  that is not already-exists, only the error counter is incremented; when \<open>AddEntry\<close>
  succeeds, the archived count and bytes grow by 1 and the item's size; when it answers
  already-exists, the not-archived count and bytes grow instead and the error counter
  is untouched. Whatever the outcome, the loop of \<open>archiveInputs\<close> goes on with the
  items that remain.
\<close>

theorem archiveItem_counters:
  "(os_Open (a_fullPath item) = Inl e \<longrightarrow>
      archiveItem os_Open cas_AddEntry s item cas = (s\<lparr>errors := errors s + 1\<rparr>, cas))
   \<and> (os_Open (a_fullPath item) = Inr f \<and> cas_AddEntry cas f (a_sha1 item) = (None, cas') \<longrightarrow>
      archiveItem os_Open cas_AddEntry s item cas =
        (s\<lparr>nbArchived := nbArchived s + 1, bytesArchived := bytesArchived s + a_size item\<rparr>,
         cas'))
   \<and> (os_Open (a_fullPath item) = Inr f \<and> cas_AddEntry cas f (a_sha1 item) = (Some e, cas')
        \<and> isExist e \<longrightarrow>
      archiveItem os_Open cas_AddEntry s item cas =
        (s\<lparr>nbNotArchived := nbNotArchived s + 1,
           bytesNotArchived := bytesNotArchived s + a_size item\<rparr>, cas'))
   \<and> (os_Open (a_fullPath item) = Inr f \<and> cas_AddEntry cas f (a_sha1 item) = (Some e, cas')
        \<and> \<not> isExist e \<longrightarrow>
      archiveItem os_Open cas_AddEntry s item cas = (s\<lparr>errors := errors s + 1\<rparr>, cas'))
   \<and> (\<not> interrupted intr \<longrightarrow>
      archiveLoop os_Open cas_AddEntry Separator intr s cas entryRoot (item # items) =
        archiveLoop os_Open cas_AddEntry Separator (tl intr)
          (fst (archiveItem os_Open cas_AddEntry s item cas))
          (snd (archiveItem os_Open cas_AddEntry s item cas))
          (makeEntry Separator entryRoot item) items)"
  by (simp add: archiveItem_def os_IsExist_def split: prod.splits)

theorem archiveItem_counters_witness:
  "archiveItem (\<lambda>p. if p = ''/gone'' then Inl (Err False ''no such file'') else Inr p)
      (\<lambda>cas f sha. if sha \<in> set cas then (Some (Err True ''file exists''), cas)
                    else if sha = [] then (Some (Err False ''bad digest''), cas)
                    else (None, sha # cas))
      newStats \<lparr>a_fullPath = ''/gone'', a_relPath = ''gone'', a_sha1 = ''aa'', a_size = 5\<rparr>
      [''bb'']
     = (newStats\<lparr>errors := 1\<rparr>, [''bb''])
   \<and> archiveItem (\<lambda>p. if p = ''/gone'' then Inl (Err False ''no such file'') else Inr p)
      (\<lambda>cas f sha. if sha \<in> set cas then (Some (Err True ''file exists''), cas)
                    else if sha = [] then (Some (Err False ''bad digest''), cas)
                    else (None, sha # cas))
      newStats \<lparr>a_fullPath = ''/f'', a_relPath = ''f'', a_sha1 = ''aa'', a_size = 5\<rparr> [''bb'']
     = (newStats\<lparr>nbArchived := 1, bytesArchived := 5\<rparr>, [''aa'', ''bb''])
   \<and> archiveItem (\<lambda>p. if p = ''/gone'' then Inl (Err False ''no such file'') else Inr p)
      (\<lambda>cas f sha. if sha \<in> set cas then (Some (Err True ''file exists''), cas)
                    else if sha = [] then (Some (Err False ''bad digest''), cas)
                    else (None, sha # cas))
      newStats \<lparr>a_fullPath = ''/f'', a_relPath = ''f'', a_sha1 = ''bb'', a_size = 5\<rparr> [''bb'']
     = (newStats\<lparr>nbNotArchived := 1, bytesNotArchived := 5\<rparr>, [''bb''])
   \<and> archiveItem (\<lambda>p. if p = ''/gone'' then Inl (Err False ''no such file'') else Inr p)
      (\<lambda>cas f sha. if sha \<in> set cas then (Some (Err True ''file exists''), cas)
                    else if sha = [] then (Some (Err False ''bad digest''), cas)
                    else (None, sha # cas))
      newStats \<lparr>a_fullPath = ''/f'', a_relPath = ''f'', a_sha1 = [], a_size = 5\<rparr> [''bb'']
     = (newStats\<lparr>errors := 1\<rparr>, [''bb''])"
proof -
  let ?open = "\<lambda>p. if p = ''/gone'' then Inl (Err False ''no such file'') else Inr p"
  let ?add = "\<lambda>cas f sha. if sha \<in> set cas then (Some (Err True ''file exists''), cas)
                    else if sha = [] then (Some (Err False ''bad digest''), cas)
                    else (None, sha # cas)"
  note t = archiveItem_counters [where os_Open = ?open and cas_AddEntry = ?add
      and s = newStats and cas = "[''bb'']" and intr = "[]" and items = "[]"
      and entryRoot = "Entry [] [] 0" and Separator = "CHR ''/''"]
  from t [where item = "\<lparr>a_fullPath = ''/gone'', a_relPath = ''gone'', a_sha1 = ''aa'',
                          a_size = 5\<rparr>"
             and e = "Err False ''no such file''"]
       t [where item = "\<lparr>a_fullPath = ''/f'', a_relPath = ''f'', a_sha1 = ''aa'', a_size = 5\<rparr>"
             and f = "''/f''" and cas' = "[''aa'', ''bb'']"]
       t [where item = "\<lparr>a_fullPath = ''/f'', a_relPath = ''f'', a_sha1 = ''bb'', a_size = 5\<rparr>"
             and f = "''/f''" and cas' = "[''bb'']" and e = "Err True ''file exists''"]
       t [where item = "\<lparr>a_fullPath = ''/f'', a_relPath = ''f'', a_sha1 = [], a_size = 5\<rparr>"
             and f = "''/f''" and cas' = "[''bb'']" and e = "Err False ''bad digest''"]
  show ?thesis by (simp add: newStats_def)
qed

text \<open>
  C6. When the loop of \<open>archiveInputs\<close> has drained its items and serializing the root
  manifest fails, or storing it fails with an error that is not already-exists,
  \<open>archiveInputs\<close> counts an error and sends exactly the empty string before it closes
  its channel. The driver, receiving what that channel delivers after any number of
  ticks, returns an error and leaves the nodes table as it was, whatever
  \<open>nodes_AddEntry\<close> would do.
\<close>

theorem manifest_failure_sentinel:
  assumes "archiveLoop os_Open cas_AddEntry Separator intr s cas (Entry [] [] 0) items
             = (s1, cas1, entryRoot, False)"
    and "json_Marshal entryRoot = Inl e \<and> cas2 = cas1
         \<or> json_Marshal entryRoot = Inr data \<and> AddBytes cas1 data = (sha, Some e, cas2)
             \<and> \<not> isExist e"
  shows "archiveInputs os_Open cas_AddEntry json_Marshal AddBytes Separator intr s cas items
           = (s1\<lparr>errors := errors s1 + 1\<rparr>, cas2, [[]])
       \<and> mainLoop nodes_AddEntry comment toArchive nodes
           (map (\<lambda>t. (EvTick, t)) ticks @ map (\<lambda>ev. (ev, s')) (channelEvents
              (snd (snd (archiveInputs os_Open cas_AddEntry json_Marshal AddBytes Separator
                 intr s cas items)))))
           = (Some (Some (if errors s' \<noteq> 0 then GotErrors (errors s') else UnexpectedError)),
              nodes, map (\<lambda>t. Line t (CHR 0x0D)) ticks)"
proof -
  have a: "archiveInputs os_Open cas_AddEntry json_Marshal AddBytes Separator intr s cas items
           = (s1\<lparr>errors := errors s1 + 1\<rparr>, cas2, [[]])"
    using assms by (auto simp add: archiveInputs_def os_IsExist_def)
  show ?thesis
    by (simp add: a mainLoop_ticks channelEvents_def)
qed

theorem manifest_failure_sentinel_witness:
  "archiveInputs (\<lambda>p. (Inr p :: error + string))
      (\<lambda>cas f sha. if sha \<in> set cas then (Some (Err True ''file exists''), cas)
                    else (None, sha # cas))
      (\<lambda>root. Inr ''{}'')
      (\<lambda>cas data. (''da39'', Some (Err False ''disk full''), cas))
      (CHR ''/'') [] newStats [''bb'']
      [\<lparr>a_fullPath = ''/f'', a_relPath = ''f'', a_sha1 = ''aa'', a_size = 5\<rparr>]
     = (newStats\<lparr>nbArchived := 1, bytesArchived := 5, errors := 1\<rparr>, [''aa'', ''bb''], [[]])
   \<and> mainLoop (\<lambda>nodes node name. (name, node) # nodes) ''c'' ''/home/u/list'' []
       (map (\<lambda>ev. (ev, newStats\<lparr>nbArchived := 1, bytesArchived := 5, errors := 1\<rparr>))
         (channelEvents (snd (snd (archiveInputs (\<lambda>p. (Inr p :: error + string))
      (\<lambda>cas f sha. if sha \<in> set cas then (Some (Err True ''file exists''), cas)
                    else (None, sha # cas))
      (\<lambda>root. Inr ''{}'')
      (\<lambda>cas data. (''da39'', Some (Err False ''disk full''), cas))
      (CHR ''/'') [] newStats [''bb'']
      [\<lparr>a_fullPath = ''/f'', a_relPath = ''f'', a_sha1 = ''aa'', a_size = 5\<rparr>])))))
     = (Some (Some (GotErrors 1)), [], [])"
proof -
  let ?open = "\<lambda>p. (Inr p :: error + string)"
  let ?add = "\<lambda>cas f sha. if sha \<in> set cas then (Some (Err True ''file exists''), cas)
                    else (None, sha # cas)"
  let ?item = "\<lparr>a_fullPath = ''/f'', a_relPath = ''f'', a_sha1 = ''aa'', a_size = 5\<rparr>"
  have run: "archiveLoop ?open ?add (CHR ''/'') [] newStats [''bb''] (Entry [] [] 0) [?item]
      = (newStats\<lparr>nbArchived := 1, bytesArchived := 5\<rparr>, [''aa'', ''bb''],
         Entry [(''f'', Entry [] ''aa'' 5)] [] 0, False)"
    by (simp add: archiveItem_def os_IsExist_def interrupted_def makeEntry_def newStats_def)
  note t = manifest_failure_sentinel [where os_Open = ?open and cas_AddEntry = ?add
      and json_Marshal = "\<lambda>root. Inr ''{}''"
      and AddBytes = "\<lambda>cas data. (''da39'', Some (Err False ''disk full''), cas)"
      and Separator = "CHR ''/''" and intr = "[]" and s = newStats and cas = "[''bb'']"
      and items = "[?item]" and ?s1.0 = "newStats\<lparr>nbArchived := 1, bytesArchived := 5\<rparr>"
      and ?cas1.0 = "[''aa'', ''bb'']" and ?cas2.0 = "[''aa'', ''bb'']"
      and entryRoot = "Entry [(''f'', Entry [] ''aa'' 5)] [] 0"
      and e = "Err False ''disk full''" and data = "''{}''" and sha = "''da39''"
      and ticks = "[]" and nodes = "[]"
      and nodes_AddEntry = "\<lambda>nodes node name. (name, node) # nodes"
      and comment = "''c''" and toArchive = "''/home/u/list''"
      and s' = "newStats\<lparr>nbArchived := 1, bytesArchived := 5, errors := 1\<rparr>"]
  from t [OF run]
  show ?thesis by (auto simp add: newStats_def)
qed

section \<open>Properties of the pipeline's items and counters\<close>

lemma enumerateInputs_no_dirs:
  "enumerateInputs os_Stat EnumerateTree intr s inputs = (s', out, ex) \<Longrightarrow>
     \<forall>item\<in>set out. \<not> fi_IsDir (info item)"
proof (induction inputs arbitrary: intr s s' out ex)
  case Nil
  then show ?case by simp
next
  case (Cons input inputs)
  then show ?case
    by (fastforce split: sum.splits list.splits if_splits prod.splits)
qed

lemma hashInputs_no_panic:
  "hashInputs h clock intr k cache s xs = (s', cache', out, ex) \<Longrightarrow>
   \<forall>item\<in>set xs. \<not> fi_IsDir (info item) \<Longrightarrow> ex \<noteq> Panicked"
proof (induction xs arbitrary: intr k cache s s' cache' out ex)
  case Nil
  then show ?case by (auto split: if_splits)
next
  case (Cons x xs)
  then show ?case
    by (fastforce simp add: Let_def split: prod.splits option.splits if_splits)
qed

lemma enumerateInputs_no_panic:
  "enumerateInputs os_Stat EnumerateTree intr s inputs = (s', out, ex) \<Longrightarrow>
   (\<forall>input stat item rest. input \<in> set inputs \<and> os_Stat input = Inr stat \<and> fi_IsDir stat
        \<and> EnumerateTree input = item # rest \<and> Error item = None \<and> \<not> fi_IsDir (Info item) \<longrightarrow>
       length input + 1 \<le> length (FullPath item)) \<Longrightarrow> ex \<noteq> Panicked"
proof (induction inputs arbitrary: intr s s' out ex)
  case Nil
  then show ?case by simp
next
  case (Cons input inputs)
  have rest: "\<forall>input' stat item rest. input' \<in> set inputs \<and> os_Stat input' = Inr stat
        \<and> fi_IsDir stat \<and> EnumerateTree input' = item # rest \<and> Error item = None
        \<and> \<not> fi_IsDir (Info item) \<longrightarrow> length input' + 1 \<le> length (FullPath item)"
  proof (intro allI impI)
    fix input' stat item rest
    assume a: "input' \<in> set inputs \<and> os_Stat input' = Inr stat
        \<and> fi_IsDir stat \<and> EnumerateTree input' = item # rest \<and> Error item = None
        \<and> \<not> fi_IsDir (Info item)"
    then have "input' \<in> set (input # inputs)" by simp
    with a Cons.prems(2) [rule_format, of input' stat item rest]
    show "length input' + 1 \<le> length (FullPath item)" by blast
  qed
  have IH: "ex' \<noteq> Panicked"
    if "enumerateInputs os_Stat EnumerateTree intr' t inputs = (t', out', ex')"
    for intr' t t' out' ex'
    using Cons.IH [OF that rest] .
  show ?case
  proof (cases "os_Stat input")
    case (Inl e)
    with Cons.prems(1) show ?thesis by (simp add: IH)
  next
    case (Inr stat)
    show ?thesis
    proof (cases "fi_IsDir stat")
      case False
      with Cons.prems(1) Inr show ?thesis
        by (auto split: prod.splits simp add: IH)
    next
      case True
      note isdir = this
      show ?thesis
      proof (cases "interrupted intr")
        case True
        with Cons.prems(1) Inr isdir show ?thesis by auto
      next
        case False
        note notintr = this
        show ?thesis
        proof (cases "EnumerateTree input")
          case Nil
          with Cons.prems(1) Inr isdir notintr show ?thesis by (simp add: IH)
        next
          case (Cons item more)
          note tree = this
          show ?thesis
          proof (cases "Error item = None \<and> \<not> fi_IsDir (Info item)")
            case False
            with Cons.prems(1) Inr isdir notintr tree show ?thesis
              by (auto simp add: IH split: if_splits)
          next
            case True
            with Cons.prems(2) [rule_format, of input stat item more] Inr isdir tree
            have len: "length input + 1 \<le> length (FullPath item)" by simp
            with Cons.prems(1) Inr isdir notintr tree True show ?thesis
              by (auto simp add: IH split: prod.splits)
          qed
        qed
      qed
    qed
  qed
qed

text \<open>
  C8. No item sent by \<open>enumerateInputs\<close> is a directory, so \<open>hashInputs\<close>, run on
  those items with any hash function, clock, schedule, cache and counters, does not
  reach its \<open>panic\<close>. \<open>enumerateInputs\<close> itself has one expression that can panic, the
  slice \<open>item.FullPath[len(input)+1:]\<close>, evaluated for a regular file that the tree of
  a directory input delivers without an error: it does not panic when the path of
  such a file is longer than the directory it was found in. Nothing is asked of what
  \<open>os.Stat\<close> answers, of the inputs it fails on, or of the items a tree delivers with an
  error: no I/O result makes the stage panic. The archive stage has no panic at all:
  its model has no such outcome.
\<close>

theorem enumerated_items_never_panic_hashInputs:
  assumes "enumerateInputs os_Stat EnumerateTree intr s inputs = (s', out, ex)"
  shows "(\<forall>item\<in>set out. \<not> fi_IsDir (info item))
       \<and> snd (snd (snd (hashInputs sha1FilePath clock intr' k cache t out))) \<noteq> Panicked
       \<and> ((\<forall>input stat item rest. input \<in> set inputs \<and> os_Stat input = Inr stat
               \<and> fi_IsDir stat \<and> EnumerateTree input = item # rest \<and> Error item = None
               \<and> \<not> fi_IsDir (Info item) \<longrightarrow>
              length input + 1 \<le> length (FullPath item)) \<longrightarrow> ex \<noteq> Panicked)"
proof -
  have files: "\<forall>item\<in>set out. \<not> fi_IsDir (info item)"
    using assms by (rule enumerateInputs_no_dirs)
  obtain t' cache' out' ex' where
    h: "hashInputs sha1FilePath clock intr' k cache t out = (t', cache', out', ex')"
    by (cases "hashInputs sha1FilePath clock intr' k cache t out") auto
  have hash: "snd (snd (snd (hashInputs sha1FilePath clock intr' k cache t out))) \<noteq> Panicked"
    using hashInputs_no_panic [OF h files] by (simp add: h)
  have enum: "(\<forall>input stat item rest. input \<in> set inputs \<and> os_Stat input = Inr stat
               \<and> fi_IsDir stat \<and> EnumerateTree input = item # rest \<and> Error item = None
               \<and> \<not> fi_IsDir (Info item) \<longrightarrow>
              length input + 1 \<le> length (FullPath item)) \<longrightarrow> ex \<noteq> Panicked"
    by (rule impI) (rule enumerateInputs_no_panic [OF assms])
  from files hash enum show ?thesis by (intro conjI)
qed

theorem enumerated_items_never_panic_hashInputs_witness:
  "enumerateInputs
       (\<lambda>p. if p = ''/gone'' then Inl (Err False ''no such file'')
            else Inr \<lparr>fi_IsDir = (p = ''/d'' \<or> p = ''/e''), fi_Size = 3, fi_ModTime = 0\<rparr>)
       (\<lambda>p. if p = ''/e''
            then [\<lparr>FullPath = [], Info = \<lparr>fi_IsDir = False, fi_Size = 0, fi_ModTime = 0\<rparr>,
                    Error = Some (Err False ''permission denied'')\<rparr>]
            else [\<lparr>FullPath = ''/d/a'',
                    Info = \<lparr>fi_IsDir = False, fi_Size = 1, fi_ModTime = 0\<rparr>, Error = None\<rparr>])
       [] newStats [''/gone'', ''/e'', ''/d'', ''/f'']
     = (newStats\<lparr>errors := 2, found := 2, totalSize := 3\<rparr>,
        [\<lparr>fullPath = ''/d/a'', relPath = ''a'',
           info = \<lparr>fi_IsDir = False, fi_Size = 1, fi_ModTime = 0\<rparr>\<rparr>,
         \<lparr>fullPath = ''/f'', relPath = ''f'',
           info = \<lparr>fi_IsDir = False, fi_Size = 3, fi_ModTime = 0\<rparr>\<rparr>],
        Finished)
   \<and> Finished \<noteq> Panicked
   \<and> snd (snd (snd (hashInputs (\<lambda>p. Inr ''da39'') (\<lambda>k. 7) [] 0 Map.empty newStats
       [\<lparr>fullPath = ''/d/a'', relPath = ''a'',
          info = \<lparr>fi_IsDir = False, fi_Size = 1, fi_ModTime = 0\<rparr>\<rparr>,
        \<lparr>fullPath = ''/f'', relPath = ''f'',
          info = \<lparr>fi_IsDir = False, fi_Size = 3, fi_ModTime = 0\<rparr>\<rparr>]))) \<noteq> Panicked"
proof -
  let ?stat = "\<lambda>p. if p = ''/gone'' then Inl (Err False ''no such file'')
            else Inr \<lparr>fi_IsDir = (p = ''/d'' \<or> p = ''/e''), fi_Size = 3, fi_ModTime = 0\<rparr>"
  let ?tree = "\<lambda>p. if p = ''/e''
            then [\<lparr>FullPath = [], Info = \<lparr>fi_IsDir = False, fi_Size = 0, fi_ModTime = 0\<rparr>,
                    Error = Some (Err False ''permission denied'')\<rparr>]
            else [\<lparr>FullPath = ''/d/a'',
                    Info = \<lparr>fi_IsDir = False, fi_Size = 1, fi_ModTime = 0\<rparr>, Error = None\<rparr>]"
  let ?out = "[\<lparr>fullPath = ''/d/a'', relPath = ''a'',
          info = \<lparr>fi_IsDir = False, fi_Size = 1, fi_ModTime = 0\<rparr>\<rparr>,
        \<lparr>fullPath = ''/f'', relPath = ''f'',
          info = \<lparr>fi_IsDir = False, fi_Size = 3, fi_ModTime = 0\<rparr>\<rparr>]"
  have run: "enumerateInputs ?stat ?tree [] newStats [''/gone'', ''/e'', ''/d'', ''/f'']
      = (newStats\<lparr>errors := 2, found := 2, totalSize := 3\<rparr>, ?out, Finished)"
    by (simp add: interrupted_def newStats_def path_Base_def)
  have paths: "\<forall>input stat item rest. input \<in> set [''/gone'', ''/e'', ''/d'', ''/f'']
        \<and> ?stat input = Inr stat \<and> fi_IsDir stat \<and> ?tree input = item # rest
        \<and> Error item = None \<and> \<not> fi_IsDir (Info item) \<longrightarrow>
      length input + 1 \<le> length (FullPath item)"
    by (auto split: if_splits)
  note t = enumerated_items_never_panic_hashInputs [OF run, of "\<lambda>p. Inr ''da39''" "\<lambda>k. 7"
      "[]" 0 Map.empty newStats]
  have a: "Finished \<noteq> Panicked"
    by (rule t [THEN conjunct2, THEN conjunct2, THEN mp, OF paths])
  have b: "snd (snd (snd (hashInputs (\<lambda>p. Inr ''da39'') (\<lambda>k. 7) [] 0 Map.empty newStats
      ?out))) \<noteq> Panicked"
    by (rule t [THEN conjunct2, THEN conjunct1])
  from run a b show ?thesis by (intro conjI)
qed






section \<open>Properties of the nodes table\<close>

lemma AddEntry_loop_spec:
  "AddEntry_loop now name node entries k = (p, es) \<Longrightarrow>
     \<exists>n\<ge>k. p = nodePath now name n \<and> map_of entries p = None
        \<and> (\<forall>j. k \<le> j \<and> j < n \<longrightarrow> map_of entries (nodePath now name j) \<noteq> None)
        \<and> es = AList.update p node entries"
proof (induction now name node entries k rule: AddEntry_loop.induct)
  case (1 now name node entries suffix)
  show ?case
  proof (cases "map_of entries (nodePath now name suffix) = None")
    case True
    with "1.prems" show ?thesis
      by (subst (asm) AddEntry_loop.simps) auto
  next
    case False
    with "1.prems" have "AddEntry_loop now name node entries (suffix + 1) = (p, es)"
      by (subst (asm) AddEntry_loop.simps) simp
    from "1.IH" [OF False this] obtain n where n: "suffix + 1 \<le> n" "p = nodePath now name n"
      "map_of entries p = None"
      "\<forall>j. suffix + 1 \<le> j \<and> j < n \<longrightarrow> map_of entries (nodePath now name j) \<noteq> None"
      "es = AList.update p node entries" by blast
    have "\<forall>j. suffix \<le> j \<and> j < n \<longrightarrow> map_of entries (nodePath now name j) \<noteq> None"
    proof (intro allI impI)
      fix j assume j: "suffix \<le> j \<and> j < n"
      show "map_of entries (nodePath now name j) \<noteq> None"
      proof (cases "j = suffix")
        case True
        with False show ?thesis by simp
      next
        case False
        with j have "suffix + 1 \<le> j \<and> j < n" by simp
        with n(4) show ?thesis by blast
      qed
    qed
    with n show ?thesis
      by (intro exI [of _ n]) simp
  qed
qed

lemma itoa_not_empty: "itoa n \<noteq> []"
  by (subst itoa.simps) simp

lemma digit_not_t: "d < 10 \<Longrightarrow> char_of (48 + d :: nat) \<noteq> CHR ''t''"
proof
  assume d: "d < 10" and "char_of (48 + d) = CHR ''t''"
  then have "(of_char (char_of (48 + d)) :: nat) = of_char (CHR ''t'')" by simp
  with d show False by simp
qed

lemma itoa_no_t: "CHR ''t'' \<notin> set (itoa n)"
proof (induction n rule: itoa.induct)
  case (1 n)
  show ?case
  proof (cases "n < 10")
    case True
    then show ?thesis by (subst itoa.simps) (simp add: digit_not_t [THEN not_sym])
  next
    case False
    with 1 have "CHR ''t'' \<notin> set (itoa (n div 10))" by simp
    with False show ?thesis by (subst itoa.simps) (simp add: digit_not_t [THEN not_sym])
  qed
qed

lemma pad_hd: "\<exists>c cs. pad w n = c # cs \<and> c \<noteq> CHR ''t''"
proof -
  have "pad w n \<noteq> []" by (simp add: pad_def itoa_not_empty)
  moreover have "CHR ''t'' \<notin> set (pad w n)" by (simp add: pad_def itoa_no_t)
  ultimately show ?thesis by (cases "pad w n") auto
qed

lemma nodePath_not_tag: "nodePath now name n \<noteq> tagsName @ ''/'' @ name'"
proof -
  obtain c cs where "pad 4 (year now) = c # cs" "c \<noteq> CHR ''t''"
    using pad_hd by blast
  then show ?thesis by (simp add: nodePath_def monthName_def tagsName_def)
qed

lemma nodePath_inj: "nodePath now name a = nodePath now name b \<Longrightarrow> a = b"
proof -
  define val where "val = foldl (\<lambda>a c. 10 * a + (of_char c - (48::nat))) 0"
  have val_itoa: "val (itoa k) = k" for k
  proof (induction k rule: itoa.induct)
    case (1 n)
    show ?case
    proof (cases "n < 10")
      case True
      then show ?thesis by (subst itoa.simps) (simp add: val_def)
    next
      case False
      with 1 have "val (itoa (n div 10)) = n div 10" by simp
      with False show ?thesis by (subst itoa.simps) (simp add: val_def)
    qed
  qed
  assume "nodePath now name a = nodePath now name b"
  then have "a = 0 \<and> b = 0 \<or> itoa a = itoa b"
    by (auto simp add: nodePath_def split: if_splits)
  then show "a = b"
  proof
    assume "a = 0 \<and> b = 0"
    then show ?thesis by simp
  next
    assume "itoa a = itoa b"
    then have "val (itoa a) = val (itoa b)" by (rule arg_cong)
    then show ?thesis by (simp only: val_itoa)
  qed
qed

lemma AddEntry_spec:
  "\<exists>n. (\<forall>j<n. map_of entries (nodePath now name j) \<noteq> None)
      \<and> map_of entries (nodePath now name n) = None
      \<and> fst (AddEntry_loop now name node entries 0) = nodePath now name n
      \<and> map_of (AddEntry now entries node name) =
          (map_of entries)(nodePath now name n \<mapsto> node, tagsName @ ''/'' @ name \<mapsto> node)"
proof -
  obtain p es where l: "AddEntry_loop now name node entries 0 = (p, es)"
    by (cases "AddEntry_loop now name node entries 0") auto
  from AddEntry_loop_spec [OF l] obtain n where n: "p = nodePath now name n"
    "map_of entries p = None"
    "\<forall>j. 0 \<le> j \<and> j < n \<longrightarrow> map_of entries (nodePath now name j) \<noteq> None"
    "es = AList.update p node entries" by blast
  show ?thesis
    using n l by (intro exI [of _ n]) (simp add: AddEntry_def update_conv')
qed

text \<open>
  C4. From any table, \<open>AddEntry\<close> claims the candidate \<open>nodePath now name n\<close>, that is
  \<open>YYYY-MM/stamp_name\<close> with \<open>(n)\<close> appended when \<open>n\<close> is not 0, for the least \<open>n\<close>
  whose candidate is free: the path it writes was not in the table, every other entry
  but the tag keeps its value, and no candidate is ever a tag's key. It binds
  \<open>tags/name\<close> to the node. A second call in the same second with the same name
  claims a different path, the candidate of the least suffix \<open>n2\<close> free by then; afterwards both
  nodes are in the table under their paths and the tag is bound to the second.
\<close>

theorem AddEntry_claims_fresh_name:
  "\<exists>n n2. nodePath now name n2 \<noteq> nodePath now name n
     \<and> (\<forall>j<n. map_of entries (nodePath now name j) \<noteq> None)
     \<and> (\<forall>j<n2. map_of (AddEntry now entries node name) (nodePath now name j) \<noteq> None)
     \<and> map_of entries (nodePath now name n) = None
     \<and> map_of (AddEntry now entries node name) (nodePath now name n) = Some node
     \<and> map_of (AddEntry now entries node name) (tagsName @ ''/'' @ name) = Some node
     \<and> (\<forall>k. k \<noteq> nodePath now name n \<and> k \<noteq> tagsName @ ''/'' @ name \<longrightarrow>
           map_of (AddEntry now entries node name) k = map_of entries k)
     \<and> (\<forall>now' name' j. nodePath now' name' j \<noteq> tagsName @ ''/'' @ name)
     \<and> map_of (AddEntry now (AddEntry now entries node name) node2 name) (nodePath now name n)
          = Some node
     \<and> map_of (AddEntry now (AddEntry now entries node name) node2 name) (nodePath now name n2)
          = Some node2
     \<and> map_of (AddEntry now (AddEntry now entries node name) node2 name)
          (tagsName @ ''/'' @ name) = Some node2"
proof -
  let ?tag = "tagsName @ ''/'' @ name"
  let ?m1 = "AddEntry now entries node name"
  let ?m2 = "AddEntry now ?m1 node2 name"
  from AddEntry_spec [of entries now name node] obtain n where
    n: "\<forall>j<n. map_of entries (nodePath now name j) \<noteq> None"
       "map_of entries (nodePath now name n) = None"
       "map_of ?m1 = (map_of entries)(nodePath now name n \<mapsto> node, ?tag \<mapsto> node)"
    by blast
  from AddEntry_spec [of ?m1 now name node2] obtain n2 where
    n2: "\<forall>j<n2. map_of ?m1 (nodePath now name j) \<noteq> None"
        "map_of ?m1 (nodePath now name n2) = None"
        "map_of ?m2 = (map_of ?m1)(nodePath now name n2 \<mapsto> node2, ?tag \<mapsto> node2)"
    by blast
  have tag: "nodePath now' name' j \<noteq> ?tag" for now' name' j
    by (rule nodePath_not_tag)
  have m1n: "map_of ?m1 (nodePath now name n) = Some node"
    using tag by (simp add: n(3))
  with n2(2) have ne: "n2 \<noteq> n" by auto
  then have pne: "nodePath now name n2 \<noteq> nodePath now name n"
    using nodePath_inj by blast
  have "map_of ?m2 (nodePath now name n) = Some node"
    using tag pne m1n by (simp add: n2(3))
  moreover have "map_of ?m2 (nodePath now name n2) = Some node2"
    using tag by (simp add: n2(3))
  moreover have "map_of ?m2 ?tag = Some node2" by (simp add: n2(3))
  moreover have "map_of ?m1 ?tag = Some node" by (simp add: n(3))
  moreover have "\<forall>k. k \<noteq> nodePath now name n \<and> k \<noteq> ?tag \<longrightarrow> map_of ?m1 k = map_of entries k"
    by (simp add: n(3))
  ultimately show ?thesis
    using n(1,2) n2(1) m1n pne tag by (intro exI [of _ n] exI [of _ n2]) simp
qed


theorem AddEntry_claims_fresh_name_witness:
  "map_of (AddEntry \<lparr>year = 2012, month = 3, day = 4, hour = 5, minute = 6, second = 7\<rparr>
       (AddEntry \<lparr>year = 2012, month = 3, day = 4, hour = 5, minute = 6, second = 7\<rparr> []
          \<lparr>n_Entry = ''aa'', n_Comment = ''c''\<rparr> ''list'')
       \<lparr>n_Entry = ''bb'', n_Comment = ''c''\<rparr> ''list'')
     ''2012-03/2012-03-04_05-06-07_list'' = Some \<lparr>n_Entry = ''aa'', n_Comment = ''c''\<rparr>
   \<and> map_of (AddEntry \<lparr>year = 2012, month = 3, day = 4, hour = 5, minute = 6, second = 7\<rparr>
       (AddEntry \<lparr>year = 2012, month = 3, day = 4, hour = 5, minute = 6, second = 7\<rparr> []
          \<lparr>n_Entry = ''aa'', n_Comment = ''c''\<rparr> ''list'')
       \<lparr>n_Entry = ''bb'', n_Comment = ''c''\<rparr> ''list'')
     ''2012-03/2012-03-04_05-06-07_list(1)'' = Some \<lparr>n_Entry = ''bb'', n_Comment = ''c''\<rparr>
   \<and> map_of (AddEntry \<lparr>year = 2012, month = 3, day = 4, hour = 5, minute = 6, second = 7\<rparr>
       (AddEntry \<lparr>year = 2012, month = 3, day = 4, hour = 5, minute = 6, second = 7\<rparr> []
          \<lparr>n_Entry = ''aa'', n_Comment = ''c''\<rparr> ''list'')
       \<lparr>n_Entry = ''bb'', n_Comment = ''c''\<rparr> ''list'')
     ''tags/list'' = Some \<lparr>n_Entry = ''bb'', n_Comment = ''c''\<rparr>"
proof -
  let ?t = "\<lparr>year = 2012, month = 3, day = 4, hour = 5, minute = 6, second = 7\<rparr>"
  let ?A = "\<lparr>n_Entry = ''aa'', n_Comment = ''c''\<rparr>"
  let ?B = "\<lparr>n_Entry = ''bb'', n_Comment = ''c''\<rparr>"
  let ?m1 = "AddEntry ?t [] ?A ''list''"
  let ?m2 = "AddEntry ?t ?m1 ?B ''list''"
  have e0: "nodePath ?t ''list'' 0 = ''2012-03/2012-03-04_05-06-07_list''"
    by code_simp
  have e1: "nodePath ?t ''list'' (Suc 0) = ''2012-03/2012-03-04_05-06-07_list(1)''"
    by code_simp
  from AddEntry_claims_fresh_name [of ?t "''list''" "[]" ?A ?B] obtain n n2 where
    h: "nodePath ?t ''list'' n2 \<noteq> nodePath ?t ''list'' n"
       "\<forall>j<n. map_of [] (nodePath ?t ''list'' j) \<noteq> (None :: Node option)"
       "\<forall>j<n2. map_of ?m1 (nodePath ?t ''list'' j) \<noteq> None"
       "\<forall>k. k \<noteq> nodePath ?t ''list'' n \<and> k \<noteq> tagsName @ ''/'' @ ''list'' \<longrightarrow>
           map_of ?m1 k = map_of [] k"
       "map_of ?m2 (nodePath ?t ''list'' n) = Some ?A"
       "map_of ?m2 (nodePath ?t ''list'' n2) = Some ?B"
       "map_of ?m2 (tagsName @ ''/'' @ ''list'') = Some ?B"
    by blast
  have n0: "n = 0"
    using h(2) by (cases n) auto
  have "map_of ?m1 (nodePath ?t ''list'' (Suc 0)) = None"
    using h(4) [rule_format, of "nodePath ?t ''list'' (Suc 0)"] by (simp add: n0 e0 e1 tagsName_def)
  with h(3) have "\<not> Suc 0 < n2" by blast
  moreover have "n2 \<noteq> 0" using h(1) n0 by (cases n2) auto
  ultimately have n1: "n2 = Suc 0" by simp
  from h(5,6,7) show ?thesis
    by (simp add: n0 n1 e0 e1 tagsName_def)
qed

end
